theory Spec2Isabelle
  imports Main "HOL-Library.Word" "HOL-Library.Multiset"
begin

section \<open>Shared Go types\<close>

text \<open>
  \<^verbatim>\<open>uuid.UUID\<close> is a 16-byte array, read here as one 128-bit word; \<^verbatim>\<open>time.Time\<close>
  is an instant, read as an integer count of nanoseconds. Go strings are byte
  sequences, as \<^typ>\<open>string\<close> is. The conversion functions below only copy these values.
\<close>

type_synonym UUID = "128 word"
type_synonym Time = int

text \<open>\<^verbatim>\<open>errors.New(msg)\<close>: an error value carrying its message.\<close>

datatype error = errors_New string

section \<open>API key extraction (internal/utils/auth.go)\<close>

subsection \<open>The library functions the code calls\<close>

text \<open>
  \<^verbatim>\<open>http.Header\<close> is \<^verbatim>\<open>map[string][]string\<close>. \<^verbatim>\<open>Header.Get(key)\<close> looks up the
  canonical form of the key and returns the first value stored under it, or the
  empty string when there is none.
\<close>

type_synonym Header = "string \<rightharpoonup> string list"

definition validHeaderFieldByte :: "char \<Rightarrow> bool" where
  "validHeaderFieldByte c \<longleftrightarrow>
     (let n = (of_char c :: nat) in
      (48 \<le> n \<and> n \<le> 57) \<or> (65 \<le> n \<and> n \<le> 90) \<or> (97 \<le> n \<and> n \<le> 122) \<or>
      c \<in> set ''!#$%&*+-.^_`|~'' \<or> n = 39)"

text \<open>
  The loop of \<^verbatim>\<open>textproto.CanonicalMIMEHeaderKey\<close>: the first letter and every letter
  after a hyphen become upper case, every other letter lower case.
\<close>

fun canonical_loop :: "bool \<Rightarrow> string \<Rightarrow> string" where
  "canonical_loop upper [] = []"
| "canonical_loop upper (c # cs) =
     (let n = (of_char c :: nat);
          c' = (if upper \<and> 97 \<le> n \<and> n \<le> 122 then char_of (n - 32)
                else if \<not> upper \<and> 65 \<le> n \<and> n \<le> 90 then char_of (n + 32)
                else c)
      in c' # canonical_loop (c' = CHR ''-'') cs)"

definition CanonicalMIMEHeaderKey :: "string \<Rightarrow> string" where
  "CanonicalMIMEHeaderKey s =
     (if list_all validHeaderFieldByte s then canonical_loop True s else s)"

definition Header_Get :: "Header \<Rightarrow> string \<Rightarrow> string" where
  "Header_Get h key =
     (case h (CanonicalMIMEHeaderKey key) of
        None \<Rightarrow> []
      | Some [] \<Rightarrow> []
      | Some (v # _) \<Rightarrow> v)"

text \<open>
  \<^verbatim>\<open>strings.Split(s, sep)\<close> for a one-byte separator, the only way the code calls it.
  As in the library's \<^verbatim>\<open>genSplit\<close>, the string is cut at the first separator and the
  rest is split again; a string without separator is the single last part. The index
  \<^verbatim>\<open>-1\<close> of \<^verbatim>\<open>strings.IndexByte\<close> is \<^const>\<open>None\<close>.
\<close>

fun IndexByte :: "string \<Rightarrow> char \<Rightarrow> nat option" where
  "IndexByte [] c = None"
| "IndexByte (x # xs) c = (if x = c then Some 0 else map_option Suc (IndexByte xs c))"

function strings_Split :: "string \<Rightarrow> char \<Rightarrow> string list" where
  "strings_Split s sep =
     (case IndexByte s sep of
        None \<Rightarrow> [s]
      | Some m \<Rightarrow> take m s # strings_Split (drop (Suc m) s) sep)"
  by pat_completeness auto
termination
proof (relation "measure (\<lambda>(s, sep). length s)")
  fix s :: string and sep :: char and m :: nat
  assume found: "IndexByte s sep = Some m"
  have bound: "IndexByte t sep = Some k \<Longrightarrow> k < length t" for t k
    by (induction t arbitrary: k) (auto split: if_splits)
  from bound [OF found] show "((drop (Suc m) s, sep), (s, sep)) \<in> measure (\<lambda>(s, sep). length s)"
    by simp
qed simp

declare strings_Split.simps [simp del]

subsection \<open>GetAPIKey\<close>

text \<open>
  The Go function returns the pair \<^verbatim>\<open>(string, error)\<close>; a \<^verbatim>\<open>nil\<close> error is
  \<^const>\<open>None\<close>.
\<close>

definition GetAPIKey :: "Header \<Rightarrow> string \<times> error option" where
  "GetAPIKey headers =
     (let val = Header_Get headers ''x-api-key'' in
      if val = [] then ([], Some (errors_New ''no auth info found''))
      else
        let vals = strings_Split val CHR '' '' in
        if length vals \<noteq> 2 then ([], Some (errors_New ''malformed auth header''))
        else if vals ! 0 \<noteq> ''ApiKey'' then
          ([], Some (errors_New ''malformed first part of auth header''))
        else (vals ! 1, None))"

section \<open>Database and API models (internal/database, internal/handlers)\<close>

text \<open>\<^verbatim>\<open>sql.NullString\<close>: a string that is meaningful only when \<^verbatim>\<open>Valid\<close> is set.\<close>

record NullString =
  NullString_String :: string
  NullString_Valid :: bool

text \<open>
  \<^verbatim>\<open>database.Feed\<close> (internal/database/models.go) and the API model \<^verbatim>\<open>Feed\<close>.
  models.go declares \<^verbatim>\<open>UserID\<close> as \<^verbatim>\<open>uuid.NullUUID\<close>, the API model as \<^verbatim>\<open>uuid.UUID\<close>;
  \<^verbatim>\<open>convertDatabaseFeedToAPIFeed\<close> assigns one to the other without conversion, which
  Go accepts only when both have the same type, the API model's \<^verbatim>\<open>uuid.UUID\<close> here.
\<close>

record database_Feed =
  dbFeed_ID :: UUID
  dbFeed_Name :: string
  dbFeed_CreatedAt :: Time
  dbFeed_UpdatedAt :: Time
  dbFeed_Url :: string
  dbFeed_UserID :: UUID

record Feed =
  Feed_ID :: UUID
  Feed_Name :: string
  Feed_CreatedAt :: Time
  Feed_UpdatedAt :: Time
  Feed_Url :: string
  Feed_UserID :: UUID

text \<open>
  Modelled from the spec: \<^verbatim>\<open>database.Post\<close>, whose declaration is not in models.go. It
  is the Post of the data model (identifier, title, optional description, canonical URL,
  published timestamp, owning feed, creation and update timestamps) under the field
  names \<^verbatim>\<open>convertDatabasePostToAPIPost\<close> reads; the optional description is a
  \<^verbatim>\<open>sql.NullString\<close>, as its \<^verbatim>\<open>.Valid\<close> and \<^verbatim>\<open>.String\<close> show.
\<close>

record database_Post =
  dbPost_ID :: UUID
  dbPost_Title :: string
  dbPost_Description :: NullString
  dbPost_PublishedAt :: Time
  dbPost_Url :: string
  dbPost_FeedID :: UUID
  dbPost_CreatedAt :: Time
  dbPost_UpdatedAt :: Time

text \<open>The API model's \<^verbatim>\<open>Description *string\<close> is a pointer: \<^verbatim>\<open>nil\<close> is \<^const>\<open>None\<close>.\<close>

record Post =
  Post_ID :: UUID
  Post_Title :: string
  Post_Description :: "string option"
  Post_PublishedAt :: Time
  Post_Url :: string
  Post_FeedID :: UUID
  Post_CreatedAt :: Time
  Post_UpdatedAt :: Time

definition convertDatabaseFeedToAPIFeed :: "database_Feed \<Rightarrow> Feed" where
  "convertDatabaseFeedToAPIFeed dbFeed =
     \<lparr> Feed_ID = dbFeed_ID dbFeed,
       Feed_Name = dbFeed_Name dbFeed,
       Feed_CreatedAt = dbFeed_CreatedAt dbFeed,
       Feed_UpdatedAt = dbFeed_UpdatedAt dbFeed,
       Feed_Url = dbFeed_Url dbFeed,
       Feed_UserID = dbFeed_UserID dbFeed \<rparr>"

definition convertDatabasePostToAPIPost :: "database_Post \<Rightarrow> Post" where
  "convertDatabasePostToAPIPost dbPost =
     (let description =
            (if NullString_Valid (dbPost_Description dbPost)
             then Some (NullString_String (dbPost_Description dbPost))
             else None)
      in \<lparr> Post_ID = dbPost_ID dbPost,
           Post_Title = dbPost_Title dbPost,
           Post_Description = description,
           Post_PublishedAt = dbPost_PublishedAt dbPost,
           Post_Url = dbPost_Url dbPost,
           Post_FeedID = dbPost_FeedID dbPost,
           Post_CreatedAt = dbPost_CreatedAt dbPost,
           Post_UpdatedAt = dbPost_UpdatedAt dbPost \<rparr>)"

text \<open>
  The slice converters allocate \<^verbatim>\<open>make([]T, len(xs))\<close>, a slice of zero values, and
  assign position \<^verbatim>\<open>i\<close> in the \<^verbatim>\<open>range\<close> loop. The loop functions carry the index and
  the slice built so far.
\<close>

definition zero_Feed :: Feed where
  "zero_Feed =
     \<lparr> Feed_ID = 0, Feed_Name = [], Feed_CreatedAt = 0, Feed_UpdatedAt = 0,
       Feed_Url = [], Feed_UserID = 0 \<rparr>"

definition zero_Post :: Post where
  "zero_Post =
     \<lparr> Post_ID = 0, Post_Title = [], Post_Description = None, Post_PublishedAt = 0,
       Post_Url = [], Post_FeedID = 0, Post_CreatedAt = 0, Post_UpdatedAt = 0 \<rparr>"

fun convertDatabaseFeedsToAPIFeeds_loop ::
  "nat \<Rightarrow> database_Feed list \<Rightarrow> Feed list \<Rightarrow> Feed list" where
  "convertDatabaseFeedsToAPIFeeds_loop i [] feeds = feeds"
| "convertDatabaseFeedsToAPIFeeds_loop i (dbFeed # rest) feeds =
     convertDatabaseFeedsToAPIFeeds_loop (Suc i) rest
       (feeds[i := convertDatabaseFeedToAPIFeed dbFeed])"

definition convertDatabaseFeedsToAPIFeeds :: "database_Feed list \<Rightarrow> Feed list" where
  "convertDatabaseFeedsToAPIFeeds dbFeeds =
     convertDatabaseFeedsToAPIFeeds_loop 0 dbFeeds (replicate (length dbFeeds) zero_Feed)"

fun convertDatabasePostsToAPIPosts_loop ::
  "nat \<Rightarrow> database_Post list \<Rightarrow> Post list \<Rightarrow> Post list" where
  "convertDatabasePostsToAPIPosts_loop i [] posts = posts"
| "convertDatabasePostsToAPIPosts_loop i (dbPost # rest) posts =
     convertDatabasePostsToAPIPosts_loop (Suc i) rest
       (posts[i := convertDatabasePostToAPIPost dbPost])"

definition convertDatabasePostsToAPIPosts :: "database_Post list \<Rightarrow> Post list" where
  "convertDatabasePostsToAPIPosts dbPosts =
     convertDatabasePostsToAPIPosts_loop 0 dbPosts (replicate (length dbPosts) zero_Post)"

section \<open>The ingestion core's storage contract\<close>

text \<open>
  Modelled from the spec: the rows of the storage the ingestion core works on. The
  scraper that \<^verbatim>\<open>main\<close> starts (\<^verbatim>\<open>utils.RSSFeedScrapper\<close>) and the queries it runs are
  not among the sources, and \<^verbatim>\<open>database.Feed\<close> in models.go has no last-fetched field.
  The rows follow the data model: a Feed has an identifier, a display name, a source
  URL, an optional owner, creation and update timestamps and a nullable last-fetched
  timestamp (null: never fetched); a Post has a title, an optional description, a
  canonical URL, a published timestamp and its owning feed (its identifier and
  bookkeeping timestamps are assigned by the storage and are not represented); a
  Candidate Post is a Post before it is bound to a feed.
\<close>

record feed_row =
  feed_id :: UUID
  feed_name :: string
  feed_url :: string
  feed_owner :: "UUID option"
  feed_created_at :: Time
  feed_updated_at :: Time
  feed_last_fetched :: "Time option"

record post_row =
  post_title :: string
  post_description :: "string option"
  post_url :: string
  post_published_at :: Time
  post_feed :: UUID

record candidate_post =
  cand_title :: string
  cand_url :: string
  cand_description :: "string option"
  cand_published_at :: Time

text \<open>
  Modelled from the spec: the storage, which holds the two tables. \<open>reachable\<close> says
  whether the storage answers: an unreachable storage is the specification's example
  of a failure that is not a uniqueness conflict. The results of the two writing
  queries are the outcomes the storage contract lists.
\<close>

record storage =
  feed_table :: "feed_row list"
  post_table :: "post_row list"
  reachable :: bool

datatype create_result = Created | UniqueConflict | CreateFailure

datatype mark_result = MarkSuccess | MarkFailure

text \<open>The URLs of the stored posts, in table order.\<close>

definition stored_urls :: "storage \<Rightarrow> string list" where
  "stored_urls st = map post_url (post_table st)"

text \<open>
  Modelled from the spec: \<^verbatim>\<open>createPost(feedID, title, url, description?, publishedAt)
  -> success | UniqueConflict | failure\<close>, the storage query that is not among the
  sources. Uniqueness of the URL is a constraint of the table, over all posts and not
  only those of the feed.
\<close>

definition createPost :: "storage \<Rightarrow> UUID \<Rightarrow> candidate_post \<Rightarrow> create_result \<times> storage" where
  "createPost st feedID c =
     (if \<not> reachable st then (CreateFailure, st)
      else if cand_url c \<in> set (stored_urls st) then (UniqueConflict, st)
      else (Created,
            st\<lparr>post_table := post_table st @
                 [\<lparr> post_title = cand_title c,
                    post_description = cand_description c,
                    post_url = cand_url c,
                    post_published_at = cand_published_at c,
                    post_feed = feedID \<rparr>]\<rparr>))"

text \<open>
  Modelled from the spec: \<^verbatim>\<open>markFeedFetched(feedID, timestamp) -> success/failure\<close>,
  the storage query that is not among the sources. The last-fetched timestamp of the
  feed with that identifier is advanced to the timestamp given; the data model requires
  that it never decreases once it is set, so a timestamp earlier than the stored one
  leaves the stored one. The posts are not touched.
\<close>

definition advance :: "Time option \<Rightarrow> Time \<Rightarrow> Time option" where
  "advance stored ts = (case stored of None \<Rightarrow> Some ts | Some old \<Rightarrow> Some (max old ts))"

definition markFeedFetched :: "storage \<Rightarrow> UUID \<Rightarrow> Time \<Rightarrow> mark_result \<times> storage" where
  "markFeedFetched st feedID ts =
     (if \<not> reachable st then (MarkFailure, st)
      else (MarkSuccess,
            st\<lparr>feed_table :=
                 map (\<lambda>f. if feed_id f = feedID
                          then f\<lparr>feed_last_fetched := advance (feed_last_fetched f) ts\<rparr>
                          else f)
                     (feed_table st)\<rparr>))"

text \<open>
  Modelled from the spec: the order of the Feed Freshness Scheduler's query, last-fetched
  ascending with nulls first, ties broken by the identifier. \<open>fetch_before f g\<close> says
  that \<open>f\<close> does not rank after \<open>g\<close>; the table is ranked by insertion in that order.
\<close>

definition fetch_before :: "feed_row \<Rightarrow> feed_row \<Rightarrow> bool" where
  "fetch_before f g =
     (case (feed_last_fetched f, feed_last_fetched g) of
        (None, None) \<Rightarrow> feed_id f \<le> feed_id g
      | (None, Some b) \<Rightarrow> True
      | (Some a, None) \<Rightarrow> False
      | (Some a, Some b) \<Rightarrow> a < b \<or> (a = b \<and> feed_id f \<le> feed_id g))"

fun insert_feed :: "feed_row \<Rightarrow> feed_row list \<Rightarrow> feed_row list" where
  "insert_feed f [] = [f]"
| "insert_feed f (g # gs) =
     (if fetch_before f g then f # g # gs else g # insert_feed f gs)"

definition rank_feeds :: "feed_row list \<Rightarrow> feed_row list" where
  "rank_feeds fs = foldr insert_feed fs []"

text \<open>
  Modelled from the spec: \<^verbatim>\<open>listFeedsToFetch(limit) -> ordered sequence of Feed\<close>,
  the storage query that is not among the sources: the first \<open>limit\<close> feeds of the
  table in the scheduler's order.
\<close>

definition listFeedsToFetch :: "storage \<Rightarrow> nat \<Rightarrow> feed_row list" where
  "listFeedsToFetch st limit = take limit (rank_feeds (feed_table st))"

section \<open>The syndication parser\<close>

text \<open>
  Modelled from the spec: the input of the Syndication Parser, which is not among the
  sources, read after XML decoding: a document is malformed as a whole, or
  it is an RSS 2.0 channel of \<^verbatim>\<open><item>\<close> elements or an Atom feed of \<^verbatim>\<open><entry>\<close>
  elements. An element is malformed, or it carries an optional title, an optional
  resolvable link, an optional description and a published timestamp when that parses.
\<close>

record feed_item =
  item_title :: "string option"
  item_link :: "string option"
  item_description :: "string option"
  item_published :: "Time option"

datatype element = MalformedItem | Item feed_item

datatype document = MalformedDocument | RSS "element list" | Atom "element list"

datatype parse_error = ParseError

text \<open>
  Modelled from the spec: the candidate of one element (Syndication Parser, item
  rules), part of the scraper that is not among the sources. No link, no candidate; an
  absent title is the empty string; an unparsable published timestamp is the fetch time.
\<close>

definition candidate_of :: "Time \<Rightarrow> element \<Rightarrow> candidate_post option" where
  "candidate_of fetch_time e =
     (case e of
        MalformedItem \<Rightarrow> None
      | Item it \<Rightarrow>
          (case item_link it of
             None \<Rightarrow> None
           | Some l \<Rightarrow>
               Some \<lparr> cand_title = (case item_title it of None \<Rightarrow> [] | Some t \<Rightarrow> t),
                      cand_url = l,
                      cand_description = item_description it,
                      cand_published_at =
                        (case item_published it of None \<Rightarrow> fetch_time | Some p \<Rightarrow> p) \<rparr>))"

fun candidates :: "Time \<Rightarrow> element list \<Rightarrow> candidate_post list" where
  "candidates fetch_time [] = []"
| "candidates fetch_time (e # es) =
     (case candidate_of fetch_time e of
        None \<Rightarrow> candidates fetch_time es
      | Some c \<Rightarrow> c # candidates fetch_time es)"

text \<open>
  Modelled from the spec: the Syndication Parser, part of the scraper that is not among
  the sources. A malformed document is a \<open>ParseError\<close>; otherwise the candidates come
  out in document order.
\<close>

definition parseFeed :: "Time \<Rightarrow> document \<Rightarrow> parse_error + candidate_post list" where
  "parseFeed fetch_time doc =
     (case doc of
        MalformedDocument \<Rightarrow> Inl ParseError
      | RSS items \<Rightarrow> Inr (candidates fetch_time items)
      | Atom entries \<Rightarrow> Inr (candidates fetch_time entries))"

text \<open>What the statements about the parser observe on an element.\<close>

definition has_link :: "element \<Rightarrow> bool" where
  "has_link e = (case e of MalformedItem \<Rightarrow> False | Item it \<Rightarrow> item_link it \<noteq> None)"

definition lacks_link :: "element \<Rightarrow> bool" where
  "lacks_link e = (case e of MalformedItem \<Rightarrow> False | Item it \<Rightarrow> item_link it = None)"

definition lacks_title :: "element \<Rightarrow> bool" where
  "lacks_title e = (case e of MalformedItem \<Rightarrow> False | Item it \<Rightarrow> item_title it = None)"

section \<open>The deduplicator\<close>

text \<open>
  Modelled from the spec: the insert loop of the Post Deduplicator/Upserter, part of the
  scraper that is not among the sources. Each candidate is inserted; a uniqueness
  conflict is skipped; any other failure aborts the remaining candidates. The result is
  the storage afterwards and the outcomes \<open>createPost\<close> returned, in order.
\<close>

fun persistCandidates ::
  "storage \<Rightarrow> UUID \<Rightarrow> candidate_post list \<Rightarrow> storage \<times> create_result list" where
  "persistCandidates st feedID [] = (st, [])"
| "persistCandidates st feedID (c # cs) =
     (case createPost st feedID c of
        (CreateFailure, st') \<Rightarrow> (st', [CreateFailure])
      | (r, st') \<Rightarrow>
          (let (st'', rs) = persistCandidates st' feedID cs
           in (st'', r # rs)))"

text \<open>
  Modelled from the spec: the Post Deduplicator/Upserter, the write phase of a feed-cycle
  whose fetch and parse have given the candidates; it is part of the scraper that is not
  among the sources. After the candidates are attempted the feed is marked fetched with
  the fetch start time. The result is the storage afterwards, the outcomes of the
  inserts and the outcome \<open>markFeedFetched\<close> returned.
\<close>

definition dedupUpsert ::
  "storage \<Rightarrow> UUID \<Rightarrow> Time \<Rightarrow> candidate_post list
     \<Rightarrow> storage \<times> create_result list \<times> mark_result" where
  "dedupUpsert st feedID fetch_start cs =
     (let (st1, rs) = persistCandidates st feedID cs;
          (r, st2) = markFeedFetched st1 feedID fetch_start
      in (st2, rs, r))"

section \<open>Scenario data\<close>

text \<open>
  The scenarios of the specification as concrete values. Feeds \<open>A\<close> and \<open>D\<close> have
  never been fetched and were created last; feeds \<open>B\<close> and \<open>C\<close> were fetched at the
  same time, feed \<open>E\<close> after them.
\<close>

definition feed_A :: feed_row where
  "feed_A = \<lparr> feed_id = 5, feed_name = ''A'', feed_url = ''http://a'', feed_owner = None,
              feed_created_at = 9, feed_updated_at = 9, feed_last_fetched = None \<rparr>"

definition feed_B :: feed_row where
  "feed_B = \<lparr> feed_id = 2, feed_name = ''B'', feed_url = ''http://b'', feed_owner = Some 4,
              feed_created_at = 1, feed_updated_at = 1, feed_last_fetched = Some 600 \<rparr>"

definition feed_C :: feed_row where
  "feed_C = \<lparr> feed_id = 3, feed_name = ''C'', feed_url = ''http://c'', feed_owner = None,
              feed_created_at = 5, feed_updated_at = 5, feed_last_fetched = Some 600 \<rparr>"

definition feed_D :: feed_row where
  "feed_D = \<lparr> feed_id = 8, feed_name = ''D'', feed_url = ''http://d'', feed_owner = None,
              feed_created_at = 8, feed_updated_at = 8, feed_last_fetched = None \<rparr>"

definition feed_E :: feed_row where
  "feed_E = \<lparr> feed_id = 4, feed_name = ''E'', feed_url = ''http://e'', feed_owner = None,
              feed_created_at = 2, feed_updated_at = 2, feed_last_fetched = Some 900 \<rparr>"

definition five_feeds :: storage where
  "five_feeds =
     \<lparr> feed_table = [feed_E, feed_C, feed_D, feed_B, feed_A], post_table = [],
       reachable = True \<rparr>"

text \<open>
  A storage with one never-fetched feed (identifier 7) and one stored post, a candidate
  with the stored post's URL and a candidate with a new URL.
\<close>

definition known_candidate :: candidate_post where
  "known_candidate = \<lparr> cand_title = ''old'', cand_url = ''http://x/1'',
                       cand_description = None, cand_published_at = 5 \<rparr>"

definition new_candidate :: candidate_post where
  "new_candidate = \<lparr> cand_title = ''new'', cand_url = ''http://x/2'',
                     cand_description = Some ''d'', cand_published_at = 6 \<rparr>"

definition one_feed :: storage where
  "one_feed =
     \<lparr> feed_table =
         [\<lparr> feed_id = 7, feed_name = ''X'', feed_url = ''http://x'', feed_owner = None,
            feed_created_at = 1, feed_updated_at = 1, feed_last_fetched = None \<rparr>],
       post_table =
         [\<lparr> post_title = ''old'', post_description = None, post_url = ''http://x/1'',
            post_published_at = 5, post_feed = 7 \<rparr>],
       reachable = True \<rparr>"

text \<open>An Atom document of three entries: the second has no link, the third no title.\<close>

definition three_entries :: "element list" where
  "three_entries =
     [Item \<lparr> item_title = Some ''first'', item_link = Some ''http://x/1'',
             item_description = None, item_published = Some 5 \<rparr>,
      Item \<lparr> item_title = Some ''second'', item_link = None,
             item_description = None, item_published = Some 6 \<rparr>,
      Item \<lparr> item_title = None, item_link = Some ''http://x/3'',
             item_description = Some ''d'', item_published = None \<rparr>]"

section \<open>Splitting a string at a separator\<close>

lemma IndexByte_None_iff: "IndexByte s c = None \<longleftrightarrow> c \<notin> set s"
  by (induction s) auto

lemma strings_Split_Nil: "strings_Split [] sep = [[]]"
  by (simp add: strings_Split.simps)

lemma strings_Split_Cons:
  "strings_Split (x # xs) sep =
     (if x = sep then [] # strings_Split xs sep
      else (x # hd (strings_Split xs sep)) # tl (strings_Split xs sep))"
  by (cases "IndexByte xs sep")
    (simp_all add: strings_Split.simps [of "x # xs"] strings_Split.simps [of xs])

lemma strings_Split_nonempty: "strings_Split s sep \<noteq> []"
  by (subst strings_Split.simps) (simp split: option.splits)

text \<open>There is one part more than there are separators, and no part holds a separator.\<close>

lemma length_strings_Split: "length (strings_Split s sep) = Suc (count_list s sep)"
  by (induction s) (simp_all add: strings_Split_Nil strings_Split_Cons strings_Split_nonempty)

lemma strings_Split_no_sep: "p \<in> set (strings_Split s sep) \<Longrightarrow> sep \<notin> set p"
proof (induction s arbitrary: p)
  case Nil
  then show ?case by (simp add: strings_Split_Nil)
next
  case (Cons x xs)
  then show ?case
    using strings_Split_nonempty [of xs sep]
    by (cases "strings_Split xs sep") (auto simp: strings_Split_Cons split: if_splits)
qed

lemma strings_Split_append_sep:
  "sep \<notin> set p \<Longrightarrow> strings_Split (p @ sep # r) sep = p # strings_Split r sep"
  by (induction p) (auto simp: strings_Split_Cons)

lemma strings_Split_no_sep_id: "sep \<notin> set p \<Longrightarrow> strings_Split p sep = [p]"
  by (induction p) (auto simp: strings_Split_Nil strings_Split_Cons)

lemma strings_Split_single: "strings_Split s sep = [a] \<Longrightarrow> s = a \<and> sep \<notin> set a"
proof -
  assume one: "strings_Split s sep = [a]"
  then have "count_list s sep = 0"
    using length_strings_Split [of s sep] by simp
  then have "sep \<notin> set s"
    by (simp add: count_list_0_iff)
  with one show ?thesis
    by (simp add: strings_Split_no_sep_id)
qed

lemma strings_Split_pair:
  "strings_Split s sep = [a, b] \<Longrightarrow> s = a @ sep # b \<and> sep \<notin> set a \<and> sep \<notin> set b"
proof (induction s arbitrary: a)
  case Nil
  then show ?case by (simp add: strings_Split_Nil)
next
  case (Cons x xs)
  show ?case
  proof (cases "x = sep")
    case True
    with Cons.prems have "a = []" and "strings_Split xs sep = [b]"
      by (simp_all add: strings_Split_Cons)
    with True strings_Split_single [of xs sep b] show ?thesis by simp
  next
    case False
    obtain p ps where parts: "strings_Split xs sep = p # ps"
      using strings_Split_nonempty [of xs sep] by (cases "strings_Split xs sep") auto
    with False Cons.prems have "a = x # p" and "ps = [b]"
      by (simp_all add: strings_Split_Cons)
    with parts Cons.IH [of p] False show ?thesis by auto
  qed
qed

section \<open>GetAPIKey: when a key is returned\<close>

lemma canonical_api_key_header: "CanonicalMIMEHeaderKey ''x-api-key'' = ''X-Api-Key''"
  by code_simp

text \<open>
  Claim C8. For every header set, \<open>GetAPIKey\<close> returns no error if and only if the
  value of the \<open>x-api-key\<close> header is not empty and splits at spaces into exactly two
  parts of which the first is \<open>ApiKey\<close>; it then returns the second part (the value
  is \<open>ApiKey\<close>, one space and the returned key, which holds no space). In every other
  case it returns the empty string with an error: \<open>no auth info found\<close> for a missing
  header, \<open>malformed auth header\<close> for a wrong number of parts, \<open>malformed first part of
  auth header\<close> for a wrong first part, three different messages.
\<close>

theorem GetAPIKey_result:
  "let val = Header_Get headers ''x-api-key'';
       vals = strings_Split val CHR '' '';
       ok = (val \<noteq> [] \<and> length vals = 2 \<and> vals ! 0 = ''ApiKey'')
   in (snd (GetAPIKey headers) = None \<longleftrightarrow> ok) \<and>
      (ok \<longrightarrow> GetAPIKey headers = (vals ! 1, None) \<and>
              val = ''ApiKey '' @ vals ! 1 \<and> CHR '' '' \<notin> set (vals ! 1)) \<and>
      (\<not> ok \<longrightarrow>
         GetAPIKey headers =
           ([], Some (errors_New
              (if val = [] then ''no auth info found''
               else if length vals \<noteq> 2 then ''malformed auth header''
               else ''malformed first part of auth header'')))) \<and>
      distinct [''no auth info found'', ''malformed auth header'',
                ''malformed first part of auth header'']"
proof -
  let ?val = "Header_Get headers ''x-api-key''"
  let ?vals = "strings_Split ?val CHR '' ''"
  have shape: "?val = ''ApiKey '' @ ?vals ! 1 \<and> CHR '' '' \<notin> set (?vals ! 1)"
    if two: "length ?vals = 2" and first: "?vals ! 0 = ''ApiKey''"
  proof -
    from two obtain a b where ab: "?vals = [a, b]"
      by (auto simp: length_Suc_conv numeral_2_eq_2)
    with first have "a = ''ApiKey''" by simp
    with strings_Split_pair [OF ab] ab show ?thesis by simp
  qed
  then show ?thesis
    by (simp add: GetAPIKey_def Let_def)
qed

theorem GetAPIKey_result_witness:
  "Header_Get [''X-Api-Key'' \<mapsto> [''ApiKey abc'']] ''x-api-key'' = ''ApiKey abc'' \<and>
   strings_Split ''ApiKey abc'' CHR '' '' = [''ApiKey'', ''abc''] \<and>
   GetAPIKey [''X-Api-Key'' \<mapsto> [''ApiKey abc'']] = (''abc'', None) \<and>
   GetAPIKey Map.empty = ([], Some (errors_New ''no auth info found''))"
proof -
  have get: "Header_Get [''X-Api-Key'' \<mapsto> [''ApiKey abc'']] ''x-api-key'' = ''ApiKey abc''"
    by (simp add: Header_Get_def canonical_api_key_header)
  have split: "strings_Split ''ApiKey abc'' CHR '' '' = [''ApiKey'', ''abc'']"
    by (simp add: strings_Split.simps)
  have none: "Header_Get Map.empty ''x-api-key'' = []"
    by (simp add: Header_Get_def)
  show ?thesis
    using GetAPIKey_result [of "[''X-Api-Key'' \<mapsto> [''ApiKey abc'']]"]
      GetAPIKey_result [of Map.empty]
    by (simp add: get split none Let_def)
qed

text \<open>
  Read on the header value itself: a key is returned exactly for the values
  \<open>ApiKey\<close>, one space, and a key without a space (the key may be empty).
\<close>

lemma GetAPIKey_accepts_iff:
  "snd (GetAPIKey headers) = None \<longleftrightarrow>
     (\<exists>k. Header_Get headers ''x-api-key'' = ''ApiKey '' @ k \<and> CHR '' '' \<notin> set k)"
proof
  assume "snd (GetAPIKey headers) = None"
  then have two: "length (strings_Split (Header_Get headers ''x-api-key'') CHR '' '') = 2"
    and first: "strings_Split (Header_Get headers ''x-api-key'') CHR '' '' ! 0 = ''ApiKey''"
    by (auto simp: GetAPIKey_def Let_def split: if_splits)
  from two obtain a b
    where ab: "strings_Split (Header_Get headers ''x-api-key'') CHR '' '' = [a, b]"
    by (auto simp: length_Suc_conv numeral_2_eq_2)
  with first have "a = ''ApiKey''" by simp
  with strings_Split_pair [OF ab]
  show "\<exists>k. Header_Get headers ''x-api-key'' = ''ApiKey '' @ k \<and> CHR '' '' \<notin> set k"
    by auto
next
  assume "\<exists>k. Header_Get headers ''x-api-key'' = ''ApiKey '' @ k \<and> CHR '' '' \<notin> set k"
  then obtain k where val: "Header_Get headers ''x-api-key'' = ''ApiKey'' @ CHR '' '' # k"
    and k: "CHR '' '' \<notin> set k" by auto
  have "strings_Split (''ApiKey'' @ CHR '' '' # k) CHR '' ''
          = ''ApiKey'' # strings_Split k CHR '' ''"
    by (rule strings_Split_append_sep) simp
  moreover from k have "strings_Split k CHR '' '' = [k]"
    by (rule strings_Split_no_sep_id)
  ultimately
  have "strings_Split (Header_Get headers ''x-api-key'') CHR '' '' = [''ApiKey'', k]"
    by (simp only: val)
  then show "snd (GetAPIKey headers) = None"
    by (simp add: GetAPIKey_def Let_def val)
qed

section \<open>The model converters\<close>

text \<open>
  A \<^verbatim>\<open>database.Feed\<close> as the sources declare it is its six fields and nothing else:
  it has no last-fetched timestamp.
\<close>

lemma database_Feed_six_fields:
  fixes dbFeed :: database_Feed
  shows "dbFeed = \<lparr> dbFeed_ID = dbFeed_ID dbFeed, dbFeed_Name = dbFeed_Name dbFeed,
                    dbFeed_CreatedAt = dbFeed_CreatedAt dbFeed,
                    dbFeed_UpdatedAt = dbFeed_UpdatedAt dbFeed,
                    dbFeed_Url = dbFeed_Url dbFeed, dbFeed_UserID = dbFeed_UserID dbFeed \<rparr>"
  by simp

text \<open>
  Claim C9. For every database Post, the API Post has a nil Description exactly when
  the database Description is not Valid, and otherwise a Description pointing to the
  database Description's String; ID, Title, Url, FeedID, PublishedAt, CreatedAt and
  UpdatedAt are copied unchanged.
\<close>

theorem convertDatabasePostToAPIPost_fields:
  "(Post_Description (convertDatabasePostToAPIPost dbPost) = None
      \<longleftrightarrow> \<not> NullString_Valid (dbPost_Description dbPost)) \<and>
   (NullString_Valid (dbPost_Description dbPost) \<longrightarrow>
      Post_Description (convertDatabasePostToAPIPost dbPost)
        = Some (NullString_String (dbPost_Description dbPost))) \<and>
   Post_ID (convertDatabasePostToAPIPost dbPost) = dbPost_ID dbPost \<and>
   Post_Title (convertDatabasePostToAPIPost dbPost) = dbPost_Title dbPost \<and>
   Post_Url (convertDatabasePostToAPIPost dbPost) = dbPost_Url dbPost \<and>
   Post_FeedID (convertDatabasePostToAPIPost dbPost) = dbPost_FeedID dbPost \<and>
   Post_PublishedAt (convertDatabasePostToAPIPost dbPost) = dbPost_PublishedAt dbPost \<and>
   Post_CreatedAt (convertDatabasePostToAPIPost dbPost) = dbPost_CreatedAt dbPost \<and>
   Post_UpdatedAt (convertDatabasePostToAPIPost dbPost) = dbPost_UpdatedAt dbPost"
  by (simp add: convertDatabasePostToAPIPost_def)

theorem convertDatabasePostToAPIPost_fields_witness:
  "NullString_Valid \<lparr> NullString_String = ''news'', NullString_Valid = True \<rparr> \<and>
   Post_Description (convertDatabasePostToAPIPost
     \<lparr> dbPost_ID = 7, dbPost_Title = ''t'',
       dbPost_Description = \<lparr> NullString_String = ''news'', NullString_Valid = True \<rparr>,
       dbPost_PublishedAt = 3, dbPost_Url = ''u'', dbPost_FeedID = 9,
       dbPost_CreatedAt = 4, dbPost_UpdatedAt = 5 \<rparr>) = Some ''news'' \<and>
   Post_Description (convertDatabasePostToAPIPost
     \<lparr> dbPost_ID = 7, dbPost_Title = ''t'',
       dbPost_Description = \<lparr> NullString_String = ''stale'', NullString_Valid = False \<rparr>,
       dbPost_PublishedAt = 3, dbPost_Url = ''u'', dbPost_FeedID = 9,
       dbPost_CreatedAt = 4, dbPost_UpdatedAt = 5 \<rparr>) = None"
  using convertDatabasePostToAPIPost_fields
    [of "\<lparr> dbPost_ID = 7, dbPost_Title = ''t'',
       dbPost_Description = \<lparr> NullString_String = ''news'', NullString_Valid = True \<rparr>,
       dbPost_PublishedAt = 3, dbPost_Url = ''u'', dbPost_FeedID = 9,
       dbPost_CreatedAt = 4, dbPost_UpdatedAt = 5 \<rparr>"]
    convertDatabasePostToAPIPost_fields
    [of "\<lparr> dbPost_ID = 7, dbPost_Title = ''t'',
       dbPost_Description = \<lparr> NullString_String = ''stale'', NullString_Valid = False \<rparr>,
       dbPost_PublishedAt = 3, dbPost_Url = ''u'', dbPost_FeedID = 9,
       dbPost_CreatedAt = 4, dbPost_UpdatedAt = 5 \<rparr>"]
  by simp

text \<open>
  The loops fill the positions from \<open>i\<close> on and leave the rest of the slice as it was;
  every index they write is inside the slice.
\<close>

lemma convertDatabaseFeedsToAPIFeeds_loop_fills:
  "i + length dbFeeds \<le> length feeds \<Longrightarrow>
   convertDatabaseFeedsToAPIFeeds_loop i dbFeeds feeds =
     take i feeds @ map convertDatabaseFeedToAPIFeed dbFeeds @ drop (i + length dbFeeds) feeds"
proof (induction dbFeeds arbitrary: i feeds)
  case Nil
  then show ?case by simp
next
  case (Cons dbFeed rest)
  then have i: "i < length feeds" by simp
  from Cons.prems
  have "Suc i + length rest \<le> length (feeds[i := convertDatabaseFeedToAPIFeed dbFeed])"
    by simp
  from Cons.IH [OF this] i show ?case
    by (simp add: take_Suc_conv_app_nth)
qed

lemma convertDatabasePostsToAPIPosts_loop_fills:
  "i + length dbPosts \<le> length posts \<Longrightarrow>
   convertDatabasePostsToAPIPosts_loop i dbPosts posts =
     take i posts @ map convertDatabasePostToAPIPost dbPosts @ drop (i + length dbPosts) posts"
proof (induction dbPosts arbitrary: i posts)
  case Nil
  then show ?case by simp
next
  case (Cons dbPost rest)
  then have i: "i < length posts" by simp
  from Cons.prems
  have "Suc i + length rest \<le> length (posts[i := convertDatabasePostToAPIPost dbPost])"
    by simp
  from Cons.IH [OF this] i show ?case
    by (simp add: take_Suc_conv_app_nth)
qed

text \<open>
  Claim C10. For every slice of database feeds, and of database posts, the slice
  converter returns a slice of the same length whose \<open>i\<close>-th element is the conversion
  of the \<open>i\<close>-th input element: it is the map of the element converter, in order, and
  the empty slice gives the empty slice.
\<close>

theorem slice_converters_are_map:
  "convertDatabaseFeedsToAPIFeeds dbFeeds = map convertDatabaseFeedToAPIFeed dbFeeds \<and>
   length (convertDatabaseFeedsToAPIFeeds dbFeeds) = length dbFeeds \<and>
   (\<forall>i < length dbFeeds.
      convertDatabaseFeedsToAPIFeeds dbFeeds ! i = convertDatabaseFeedToAPIFeed (dbFeeds ! i)) \<and>
   convertDatabaseFeedsToAPIFeeds [] = [] \<and>
   convertDatabasePostsToAPIPosts dbPosts = map convertDatabasePostToAPIPost dbPosts \<and>
   length (convertDatabasePostsToAPIPosts dbPosts) = length dbPosts \<and>
   (\<forall>i < length dbPosts.
      convertDatabasePostsToAPIPosts dbPosts ! i = convertDatabasePostToAPIPost (dbPosts ! i)) \<and>
   convertDatabasePostsToAPIPosts [] = []"
proof -
  have feeds: "convertDatabaseFeedsToAPIFeeds xs = map convertDatabaseFeedToAPIFeed xs" for xs
    by (simp add: convertDatabaseFeedsToAPIFeeds_def convertDatabaseFeedsToAPIFeeds_loop_fills)
  have posts: "convertDatabasePostsToAPIPosts xs = map convertDatabasePostToAPIPost xs" for xs
    by (simp add: convertDatabasePostsToAPIPosts_def convertDatabasePostsToAPIPosts_loop_fills)
  show ?thesis
    by (simp add: feeds posts)
qed

theorem slice_converters_are_map_witness:
  "(1::nat) < length
     [\<lparr> dbFeed_ID = 1, dbFeed_Name = ''a'', dbFeed_CreatedAt = 10, dbFeed_UpdatedAt = 11,
        dbFeed_Url = ''http://a'', dbFeed_UserID = 5 \<rparr>,
      \<lparr> dbFeed_ID = 2, dbFeed_Name = ''b'', dbFeed_CreatedAt = 20, dbFeed_UpdatedAt = 21,
        dbFeed_Url = ''http://b'', dbFeed_UserID = 6 \<rparr>] \<and>
   convertDatabaseFeedsToAPIFeeds
     [\<lparr> dbFeed_ID = 1, dbFeed_Name = ''a'', dbFeed_CreatedAt = 10, dbFeed_UpdatedAt = 11,
        dbFeed_Url = ''http://a'', dbFeed_UserID = 5 \<rparr>,
      \<lparr> dbFeed_ID = 2, dbFeed_Name = ''b'', dbFeed_CreatedAt = 20, dbFeed_UpdatedAt = 21,
        dbFeed_Url = ''http://b'', dbFeed_UserID = 6 \<rparr>] ! 1
     = \<lparr> Feed_ID = 2, Feed_Name = ''b'', Feed_CreatedAt = 20, Feed_UpdatedAt = 21,
         Feed_Url = ''http://b'', Feed_UserID = 6 \<rparr> \<and>
   (0::nat) < length
     [\<lparr> dbPost_ID = 7, dbPost_Title = ''t'',
        dbPost_Description = \<lparr> NullString_String = ''news'', NullString_Valid = True \<rparr>,
        dbPost_PublishedAt = 3, dbPost_Url = ''u'', dbPost_FeedID = 9,
        dbPost_CreatedAt = 4, dbPost_UpdatedAt = 5 \<rparr>] \<and>
   convertDatabasePostsToAPIPosts
     [\<lparr> dbPost_ID = 7, dbPost_Title = ''t'',
        dbPost_Description = \<lparr> NullString_String = ''news'', NullString_Valid = True \<rparr>,
        dbPost_PublishedAt = 3, dbPost_Url = ''u'', dbPost_FeedID = 9,
        dbPost_CreatedAt = 4, dbPost_UpdatedAt = 5 \<rparr>] ! 0
     = \<lparr> Post_ID = 7, Post_Title = ''t'', Post_Description = Some ''news'',
         Post_PublishedAt = 3, Post_Url = ''u'', Post_FeedID = 9,
         Post_CreatedAt = 4, Post_UpdatedAt = 5 \<rparr>"
  using slice_converters_are_map
    [of "[\<lparr> dbFeed_ID = 1, dbFeed_Name = ''a'', dbFeed_CreatedAt = 10, dbFeed_UpdatedAt = 11,
        dbFeed_Url = ''http://a'', dbFeed_UserID = 5 \<rparr>,
      \<lparr> dbFeed_ID = 2, dbFeed_Name = ''b'', dbFeed_CreatedAt = 20, dbFeed_UpdatedAt = 21,
        dbFeed_Url = ''http://b'', dbFeed_UserID = 6 \<rparr>]"
        "[\<lparr> dbPost_ID = 7, dbPost_Title = ''t'',
        dbPost_Description = \<lparr> NullString_String = ''news'', NullString_Valid = True \<rparr>,
        dbPost_PublishedAt = 3, dbPost_Url = ''u'', dbPost_FeedID = 9,
        dbPost_CreatedAt = 4, dbPost_UpdatedAt = 5 \<rparr>]"]
  by (simp add: convertDatabaseFeedToAPIFeed_def convertDatabasePostToAPIPost_def)

section \<open>The scheduler's selection\<close>

text \<open>The scheduler's order is total and transitive, so insertion builds a ranked list.\<close>

lemma fetch_before_total: "fetch_before f g \<or> fetch_before g f"
  by (auto simp: fetch_before_def split: option.splits)

lemma fetch_before_trans: "fetch_before f g \<Longrightarrow> fetch_before g h \<Longrightarrow> fetch_before f h"
  by (auto simp: fetch_before_def split: option.splits)

lemma fetch_before_antisym:
  "fetch_before f g \<Longrightarrow> fetch_before g f \<Longrightarrow>
     feed_last_fetched f = feed_last_fetched g \<and> feed_id f = feed_id g"
  by (auto simp: fetch_before_def split: option.splits)

lemma mset_insert_feed: "mset (insert_feed f gs) = add_mset f (mset gs)"
  by (induction gs) auto

lemma set_insert_feed: "set (insert_feed f gs) = insert f (set gs)"
  by (induction gs) auto

lemma sorted_insert_feed:
  "sorted_wrt fetch_before gs \<Longrightarrow> sorted_wrt fetch_before (insert_feed f gs)"
proof (induction gs)
  case Nil
  then show ?case by simp
next
  case (Cons g gs)
  show ?case
  proof (cases "fetch_before f g")
    case True
    with Cons.prems show ?thesis
      by (auto intro: fetch_before_trans)
  next
    case False
    then have "fetch_before g f"
      using fetch_before_total [of f g] by simp
    with False Cons show ?thesis
      by (auto simp: set_insert_feed)
  qed
qed

lemma mset_rank_feeds: "mset (rank_feeds fs) = mset fs"
  by (induction fs) (simp_all add: rank_feeds_def mset_insert_feed)

lemma sorted_rank_feeds: "sorted_wrt fetch_before (rank_feeds fs)"
  by (induction fs) (simp_all add: rank_feeds_def sorted_insert_feed)

lemma length_rank_feeds: "length (rank_feeds fs) = length fs"
  using mset_rank_feeds [of fs] by (metis size_mset)

text \<open>
  With unique identifiers the order is antisymmetric, so a table has one ranking only:
  the selection does not depend on the order in which the rows are stored.
\<close>

lemma ranked_unique:
  "sorted_wrt fetch_before xs \<Longrightarrow> sorted_wrt fetch_before ys \<Longrightarrow> mset xs = mset ys \<Longrightarrow>
   inj_on feed_id (set xs) \<Longrightarrow> xs = ys"
proof (induction xs arbitrary: ys)
  case Nil
  then show ?case by simp
next
  case (Cons x xs)
  from Cons.prems(3) have "ys \<noteq> []" by auto
  then obtain y ys' where ys: "ys = y # ys'"
    by (cases ys) simp_all
  from Cons.prems(3) have "set (x # xs) = set ys"
    by (rule mset_eq_setD)
  with ys have sets: "insert x (set xs) = insert y (set ys')" by simp
  from Cons.prems(1) have x_first: "\<forall>z \<in> set xs. fetch_before x z" by simp
  from Cons.prems(2) ys have y_first: "\<forall>z \<in> set ys'. fetch_before y z" by simp
  have "x = y"
  proof (rule ccontr)
    assume neq: "x \<noteq> y"
    have "x \<in> insert x (set xs)" by simp
    then have "x \<in> insert y (set ys')" by (simp only: sets)
    with neq have x_in: "x \<in> set ys'" by simp
    have "y \<in> insert y (set ys')" by simp
    then have "y \<in> insert x (set xs)" by (simp only: sets)
    with neq have y_in: "y \<in> set xs" by simp
    from y_first x_in have "fetch_before y x" by (rule bspec)
    moreover from x_first y_in have "fetch_before x y" by (rule bspec)
    ultimately have "fetch_before y x" and "fetch_before x y" by this+
    then have ids: "feed_id x = feed_id y"
      using fetch_before_antisym [of x y] by blast
    from Cons.prems(4) have "inj_on feed_id (insert x (set xs))" by simp
    from inj_onD [OF this ids] \<open>y \<in> set xs\<close> have "x = y" by simp
    with neq show False by simp
  qed
  have "xs = ys'"
  proof (rule Cons.IH)
    from Cons.prems(1) show "sorted_wrt fetch_before xs" by simp
    from Cons.prems(2) ys show "sorted_wrt fetch_before ys'" by simp
    from Cons.prems(3) ys \<open>x = y\<close> show "mset xs = mset ys'" by simp
    from Cons.prems(4) show "inj_on feed_id (set xs)"
      by (rule inj_on_subset) (simp add: subset_insertI)
  qed
  with \<open>x = y\<close> ys show ?case by simp
qed


lemma listFeedsToFetch_table_order:
  assumes "distinct (map feed_id (feed_table st))"
    and "mset (feed_table st') = mset (feed_table st)"
  shows "listFeedsToFetch st' limit = listFeedsToFetch st limit"
proof -
  from assms(1) have "inj_on feed_id (set (feed_table st))"
    by (simp add: distinct_map)
  moreover from assms(2) have "set (feed_table st') = set (feed_table st)"
    by (rule mset_eq_setD)
  moreover have "set (rank_feeds (feed_table st')) = set (feed_table st')"
    by (rule mset_eq_setD) (rule mset_rank_feeds)
  ultimately have inj: "inj_on feed_id (set (rank_feeds (feed_table st')))"
    by simp
  have "rank_feeds (feed_table st') = rank_feeds (feed_table st)"
  proof (rule ranked_unique)
    show "sorted_wrt fetch_before (rank_feeds (feed_table st'))"
      by (rule sorted_rank_feeds)
    show "sorted_wrt fetch_before (rank_feeds (feed_table st))"
      by (rule sorted_rank_feeds)
    from assms(2) show "mset (rank_feeds (feed_table st')) = mset (rank_feeds (feed_table st))"
      by (simp add: mset_rank_feeds)
    from inj show "inj_on feed_id (set (rank_feeds (feed_table st')))" .
  qed
  then show ?thesis
    by (simp add: listFeedsToFetch_def)
qed

text \<open>
  Claim C2. The scheduler's ranking is a rearrangement of the stored feeds in which no
  feed with a null last-fetched timestamp comes after a feed with a non-null one,
  whatever the order and the creation timestamps of the rows; feeds with non-null
  timestamps come in ascending order of the timestamp, and feeds with the same
  last-fetched value in ascending order of the identifier. \<open>listFeedsToFetch\<close> returns
  exactly the first \<open>limit\<close> feeds of that ranking (all of them when there are fewer).
\<close>

theorem listFeedsToFetch_order:
  "let ranked = rank_feeds (feed_table st); batch = listFeedsToFetch st limit in
     mset ranked = mset (feed_table st) \<and>
     batch = take limit ranked \<and>
     length batch = min limit (length (feed_table st)) \<and>
     (\<forall>i j. i < j \<and> j < length ranked \<longrightarrow>
        (feed_last_fetched (ranked ! j) = None \<longrightarrow> feed_last_fetched (ranked ! i) = None) \<and>
        (feed_last_fetched (ranked ! i) = feed_last_fetched (ranked ! j) \<longrightarrow>
           feed_id (ranked ! i) \<le> feed_id (ranked ! j)) \<and>
        (\<forall>a b. feed_last_fetched (ranked ! i) = Some a \<and>
               feed_last_fetched (ranked ! j) = Some b \<longrightarrow> a \<le> b))"
proof -
  have order: "fetch_before (rank_feeds (feed_table st) ! i) (rank_feeds (feed_table st) ! j)"
    if "i < j" and "j < length (rank_feeds (feed_table st))" for i j
    using sorted_rank_feeds [of "feed_table st"] that
    by (simp add: sorted_wrt_iff_nth_less)
  have read: "(feed_last_fetched g = None \<longrightarrow> feed_last_fetched f = None) \<and>
     (feed_last_fetched f = feed_last_fetched g \<longrightarrow> feed_id f \<le> feed_id g) \<and>
     (\<forall>a b. feed_last_fetched f = Some a \<and> feed_last_fetched g = Some b \<longrightarrow> a \<le> b)"
    if "fetch_before f g" for f g
    using that by (auto simp: fetch_before_def split: option.splits)
  have perm: "mset (rank_feeds (feed_table st)) = mset (feed_table st)"
    by (rule mset_rank_feeds)
  have batch: "listFeedsToFetch st limit = take limit (rank_feeds (feed_table st))"
    by (simp add: listFeedsToFetch_def)
  have size: "length (listFeedsToFetch st limit) = min limit (length (feed_table st))"
    by (simp add: listFeedsToFetch_def length_rank_feeds min.commute)
  have pairs: "\<forall>i j. i < j \<and> j < length (rank_feeds (feed_table st)) \<longrightarrow>
        (feed_last_fetched (rank_feeds (feed_table st) ! j) = None \<longrightarrow>
           feed_last_fetched (rank_feeds (feed_table st) ! i) = None) \<and>
        (feed_last_fetched (rank_feeds (feed_table st) ! i)
           = feed_last_fetched (rank_feeds (feed_table st) ! j) \<longrightarrow>
           feed_id (rank_feeds (feed_table st) ! i) \<le> feed_id (rank_feeds (feed_table st) ! j)) \<and>
        (\<forall>a b. feed_last_fetched (rank_feeds (feed_table st) ! i) = Some a \<and>
               feed_last_fetched (rank_feeds (feed_table st) ! j) = Some b \<longrightarrow> a \<le> b)"
    using order read by blast
  show ?thesis
    unfolding Let_def by (intro conjI perm batch size pairs)
qed

theorem listFeedsToFetch_order_witness:
  "listFeedsToFetch five_feeds 1 = [feed_A] \<and>
   listFeedsToFetch five_feeds 3 = [feed_A, feed_D, feed_B] \<and>
   rank_feeds (feed_table five_feeds) = [feed_A, feed_D, feed_B, feed_C, feed_E] \<and>
   (0::nat) < 1 \<and> (1::nat) < 2 \<and> (2::nat) < 3 \<and> (3::nat) < 4 \<and>
   4 < length (rank_feeds (feed_table five_feeds)) \<and>
   map feed_last_fetched (rank_feeds (feed_table five_feeds))
     = [None, None, Some 600, Some 600, Some 900] \<and>
   map feed_id (rank_feeds (feed_table five_feeds)) = [5, 8, 2, 3, 4]"
  using listFeedsToFetch_order [of five_feeds 1] listFeedsToFetch_order [of five_feeds 3]
  by (simp add: Let_def listFeedsToFetch_def rank_feeds_def fetch_before_def
      five_feeds_def feed_A_def feed_B_def feed_C_def feed_D_def feed_E_def)

section \<open>Inserting posts under the uniqueness constraint\<close>

lemma createPost_keeps:
  "reachable (snd (createPost st feedID c)) = reachable st"
  "feed_table (snd (createPost st feedID c)) = feed_table st"
  by (simp_all add: createPost_def)

lemma createPost_urls:
  "reachable st \<Longrightarrow>
   set (stored_urls (snd (createPost st feedID c))) = insert (cand_url c) (set (stored_urls st))"
  by (auto simp: createPost_def stored_urls_def)

lemma createPost_distinct:
  "distinct (stored_urls st) \<Longrightarrow> distinct (stored_urls (snd (createPost st feedID c)))"
  by (simp add: createPost_def stored_urls_def)

lemma createPost_known:
  "cand_url c \<in> set (stored_urls st) \<Longrightarrow> snd (createPost st feedID c) = st"
  by (simp add: createPost_def)

lemma createPost_not_failure:
  "reachable st \<Longrightarrow> fst (createPost st feedID c) \<noteq> CreateFailure"
  by (simp add: createPost_def)

lemma markFeedFetched_keeps:
  "post_table (snd (markFeedFetched st feedID ts)) = post_table st"
  "reachable (snd (markFeedFetched st feedID ts)) = reachable st"
  by (simp_all add: markFeedFetched_def)

lemma persistCandidates_step:
  "persistCandidates st feedID (c # cs) =
     (if fst (createPost st feedID c) = CreateFailure
      then (snd (createPost st feedID c), [CreateFailure])
      else (fst (persistCandidates (snd (createPost st feedID c)) feedID cs),
            fst (createPost st feedID c)
              # snd (persistCandidates (snd (createPost st feedID c)) feedID cs)))"
  by (cases "createPost st feedID c"; cases "fst (createPost st feedID c)")
     (simp_all add: case_prod_unfold Let_def)

declare persistCandidates.simps(2) [simp del]

lemma persistCandidates_keeps:
  "reachable (fst (persistCandidates st feedID cs)) = reachable st \<and>
   feed_table (fst (persistCandidates st feedID cs)) = feed_table st"
proof (induction cs arbitrary: st)
  case Nil
  then show ?case by simp
next
  case (Cons c cs)
  then show ?case
    by (simp add: persistCandidates_step createPost_keeps)
qed

lemma persistCandidates_urls:
  "reachable st \<Longrightarrow>
   set (stored_urls (fst (persistCandidates st feedID cs)))
     = set (stored_urls st) \<union> cand_url ` set cs"
proof (induction cs arbitrary: st)
  case Nil
  then show ?case by simp
next
  case (Cons c cs)
  from Cons.prems have r: "reachable (snd (createPost st feedID c))"
    by (simp add: createPost_keeps)
  from Cons.prems Cons.IH [OF r] show ?case
    by (simp add: persistCandidates_step createPost_not_failure createPost_urls)
qed

lemma persistCandidates_known:
  "cand_url ` set cs \<subseteq> set (stored_urls st) \<Longrightarrow>
   post_table (fst (persistCandidates st feedID cs)) = post_table st"
proof (induction cs arbitrary: st)
  case Nil
  then show ?case by simp
next
  case (Cons c cs)
  then have same: "snd (createPost st feedID c) = st"
    by (simp add: createPost_known)
  with Cons show ?case
    by (simp add: persistCandidates_step)
qed

lemma persistCandidates_distinct:
  "distinct (stored_urls st) \<Longrightarrow>
   distinct (stored_urls (fst (persistCandidates st feedID cs)))"
proof (induction cs arbitrary: st)
  case Nil
  then show ?case by simp
next
  case (Cons c cs)
  then show ?case
    by (simp add: persistCandidates_step createPost_distinct)
qed

lemma dedupUpsert_parts:
  "fst (dedupUpsert st feedID fetch_start cs)
     = snd (markFeedFetched (fst (persistCandidates st feedID cs)) feedID fetch_start)"
  by (simp add: dedupUpsert_def case_prod_unfold Let_def)

lemma dedupUpsert_post_table:
  "post_table (fst (dedupUpsert st feedID fetch_start cs))
     = post_table (fst (persistCandidates st feedID cs))"
  by (simp add: dedupUpsert_parts markFeedFetched_keeps)

lemma stored_urls_cong: "post_table st = post_table st' \<Longrightarrow> stored_urls st = stored_urls st'"
  by (simp add: stored_urls_def)

text \<open>
  Claim C1. On a reachable storage, \<open>createPost\<close> for a candidate whose URL is already
  stored yields \<open>UniqueConflict\<close> and leaves the storage as it was, and the write phase
  never stores a URL twice. After one run of the write phase on a candidate list, a
  second run on the same list (for the same or any other feed, whether or not the
  storage is still reachable) leaves the stored posts, and so their number, unchanged.
\<close>

theorem createPost_conflict_idempotent:
  assumes "reachable st"
  shows "(cand_url c \<in> set (stored_urls st) \<longrightarrow>
            createPost st feedID c = (UniqueConflict, st)) \<and>
         (distinct (stored_urls st) \<longrightarrow>
            distinct (stored_urls (fst (dedupUpsert st feedID t1 cs)))) \<and>
         post_table (fst (dedupUpsert
             ((fst (dedupUpsert st feedID t1 cs))\<lparr>reachable := r\<rparr>) feedID' t2 cs))
           = post_table (fst (dedupUpsert st feedID t1 cs)) \<and>
         length (post_table (fst (dedupUpsert
             ((fst (dedupUpsert st feedID t1 cs))\<lparr>reachable := r\<rparr>) feedID' t2 cs)))
           = length (post_table (fst (dedupUpsert st feedID t1 cs)))"
proof -
  let ?st1 = "fst (dedupUpsert st feedID t1 cs)"
  have conflict: "cand_url c \<in> set (stored_urls st) \<longrightarrow>
      createPost st feedID c = (UniqueConflict, st)"
    using assms by (simp add: createPost_def)
  have dist: "distinct (stored_urls st) \<longrightarrow> distinct (stored_urls ?st1)"
    using persistCandidates_distinct [of st feedID cs]
      stored_urls_cong [OF dedupUpsert_post_table [of st feedID t1 cs]]
    by simp
  have "set (stored_urls ?st1) = set (stored_urls st) \<union> cand_url ` set cs"
    using persistCandidates_urls [OF assms, of feedID cs]
      stored_urls_cong [OF dedupUpsert_post_table [of st feedID t1 cs]]
    by simp
  then have known: "cand_url ` set cs \<subseteq> set (stored_urls (?st1\<lparr>reachable := r\<rparr>))"
    by (auto simp: stored_urls_def)
  have again: "post_table (fst (dedupUpsert (?st1\<lparr>reachable := r\<rparr>) feedID' t2 cs))
      = post_table ?st1"
    using persistCandidates_known [OF known, of feedID']
    by (simp add: dedupUpsert_post_table)
  from conflict dist again show ?thesis by simp
qed

theorem createPost_conflict_idempotent_witness:
  "reachable one_feed \<and>
   cand_url known_candidate \<in> set (stored_urls one_feed) \<and>
   createPost one_feed 7 known_candidate = (UniqueConflict, one_feed) \<and>
   distinct (stored_urls one_feed) \<and>
   stored_urls (fst (dedupUpsert one_feed 7 100 [known_candidate, new_candidate]))
     = [''http://x/1'', ''http://x/2''] \<and>
   stored_urls (fst (dedupUpsert
      ((fst (dedupUpsert one_feed 7 100 [known_candidate, new_candidate]))\<lparr>reachable := True\<rparr>)
      7 200 [known_candidate, new_candidate]))
     = [''http://x/1'', ''http://x/2'']"
  using createPost_conflict_idempotent
    [of one_feed known_candidate 7 100 "[known_candidate, new_candidate]" True 7 200]
  by (simp add: createPost_def dedupUpsert_def persistCandidates.simps(2) markFeedFetched_def
      stored_urls_def one_feed_def known_candidate_def new_candidate_def)

section \<open>What the parser keeps\<close>

lemma candidate_of_None_iff: "candidate_of ft e = None \<longleftrightarrow> \<not> has_link e"
  by (simp add: candidate_of_def has_link_def split: element.splits option.splits)

lemma candidates_linked:
  "map Some (candidates ft es) = map (candidate_of ft) (filter has_link es)"
proof (induction es)
  case Nil
  then show ?case by simp
next
  case (Cons e es)
  show ?case
  proof (cases "candidate_of ft e")
    case None
    with Cons show ?thesis
      using candidate_of_None_iff [of ft e] by simp
  next
    case (Some c)
    with Cons show ?thesis
      using candidate_of_None_iff [of ft e] by simp
  qed
qed

lemma length_candidates: "length (candidates ft es) = length (filter has_link es)"
  using arg_cong [OF candidates_linked [of ft es], of length] by simp

lemma candidate_of_untitled:
  "lacks_title e \<Longrightarrow> candidate_of ft e = Some c \<Longrightarrow> cand_title c = []"
  by (auto simp: candidate_of_def lacks_title_def split: element.splits option.splits)

lemma lacks_link_iff: "e \<noteq> MalformedItem \<Longrightarrow> lacks_link e \<longleftrightarrow> \<not> has_link e"
  by (cases e) (simp_all add: lacks_link_def has_link_def)

text \<open>
  Claim C6. For every document the parser accepts (an RSS or an Atom document), the
  parse succeeds and its candidates are, in document order, those of the elements that
  have a link: an item without a resolvable link gives no candidate and does not fail
  the parse of the others, and a candidate that comes from an item without title has
  the empty string as title. When no element is malformed, the candidates and the
  items without link together are all the elements; so a document of 3 elements of
  which exactly one lacks its link gives exactly 2 candidates.
\<close>

theorem parseFeed_candidates:
  assumes "doc = RSS es \<or> doc = Atom es"
  shows "\<exists>cs. parseFeed ft doc = Inr cs \<and>
           map Some cs = map (candidate_of ft) (filter has_link es) \<and>
           (\<forall>e \<in> set es. lacks_link e \<longrightarrow> candidate_of ft e = None) \<and>
           (\<forall>k < length cs. lacks_title (filter has_link es ! k) \<longrightarrow> cand_title (cs ! k) = []) \<and>
           ((\<forall>e \<in> set es. e \<noteq> MalformedItem) \<longrightarrow>
              length cs + length (filter lacks_link es) = length es) \<and>
           (length es = 3 \<and> (\<forall>e \<in> set es. e \<noteq> MalformedItem) \<and>
              length (filter lacks_link es) = 1 \<longrightarrow> length cs = 2)"
proof -
  let ?cs = "candidates ft es"
  from assms have parse: "parseFeed ft doc = Inr ?cs"
    by (auto simp: parseFeed_def)
  have dropped: "\<forall>e \<in> set es. lacks_link e \<longrightarrow> candidate_of ft e = None"
    by (auto simp: candidate_of_def lacks_link_def split: element.splits)
  have titles: "\<forall>k < length ?cs. lacks_title (filter has_link es ! k) \<longrightarrow> cand_title (?cs ! k) = []"
  proof (intro allI impI)
    fix k
    assume k: "k < length ?cs" and untitled: "lacks_title (filter has_link es ! k)"
    from k have k': "k < length (filter has_link es)"
      by (simp add: length_candidates)
    have "map Some ?cs ! k = map (candidate_of ft) (filter has_link es) ! k"
      by (simp only: candidates_linked)
    with k k' have "candidate_of ft (filter has_link es ! k) = Some (?cs ! k)"
      by simp
    with untitled show "cand_title (?cs ! k) = []"
      by (rule candidate_of_untitled)
  qed
  have count: "length ?cs + length (filter lacks_link es) = length es"
    if "\<forall>e \<in> set es. e \<noteq> MalformedItem"
  proof -
    from that have "filter lacks_link es = filter (\<lambda>e. \<not> has_link e) es"
      by (intro filter_cong refl) (simp add: lacks_link_iff)
    then show ?thesis
      by (simp add: length_candidates sum_length_filter_compl)
  qed
  from parse candidates_linked [of ft es] dropped titles count show ?thesis
    by auto
qed

theorem parseFeed_candidates_witness:
  "parseFeed 1000 (Atom three_entries) =
     Inr [\<lparr> cand_title = ''first'', cand_url = ''http://x/1'', cand_description = None,
            cand_published_at = 5 \<rparr>,
          \<lparr> cand_title = [], cand_url = ''http://x/3'', cand_description = Some ''d'',
            cand_published_at = 1000 \<rparr>] \<and>
   length three_entries = 3 \<and>
   MalformedItem \<notin> set three_entries \<and>
   filter lacks_link three_entries = [three_entries ! 1] \<and>
   candidate_of 1000 (three_entries ! 1) = None \<and>
   lacks_title (filter has_link three_entries ! 1) \<and>
   length (candidates 1000 three_entries) = 2"
  using parseFeed_candidates [of "Atom three_entries" three_entries 1000]
  by (simp add: parseFeed_def candidate_of_def lacks_link_def has_link_def lacks_title_def
      three_entries_def)

end
